theory Spec2Isabelle
  imports Main
begin

section \<open>Provenance of tables: the \<open>table_origin\<close> module of pdtable\<close>

text \<open>
  A shallow embedding of \<^verbatim>\<open>src/pdtable/table_origin.py\<close>: the location hierarchy
  (load items, location files, sheets and blocks), the \<open>TableOrigin\<close> tree with its
  ancestor traversal and its two renderings, and the input issue trackers.
  Python exceptions are values of a sum type, \<open>Inl\<close> holding the exception.
\<close>

subsection \<open>Exceptions\<close>

datatype exn = ValueError | AttributeError | OSError | OverflowError

subsection \<open>Text formatting of the Python runtime\<close>

text \<open>
  \<open>str(int)\<close> as used by the f-strings of the module: decimal digits, most significant
  first, a leading minus sign for a negative number.
\<close>

definition digit_char :: "nat \<Rightarrow> char" where
  "digit_char d = ''0123456789'' ! d"

fun str_nat :: "nat \<Rightarrow> string" where
  "str_nat n = (if n < 10 then [digit_char n] else str_nat (n div 10) @ [digit_char (n mod 10)])"

declare str_nat.simps [simp del]

definition str_int :: "int \<Rightarrow> string" where
  "str_int i = (if i < 0 then CHR ''-'' # str_nat (nat (- i)) else str_nat (nat i))"

text \<open>\<open>f"'{s}'"\<close>: a text between apostrophes.\<close>

definition squote :: "string \<Rightarrow> string" where
  "squote s = [CHR 0x27] @ s @ [CHR 0x27]"

text \<open>\<open>sep.join(xs)\<close> on strings.\<close>

fun join :: "string \<Rightarrow> string list \<Rightarrow> string" where
  "join sep [] = []"
| "join sep [x] = x"
| "join sep (x # y # ys) = x @ sep @ join sep (y # ys)"

subsection \<open>Locations\<close>

text \<open>
  \<open>pathlib\<close> paths of the POSIX flavour, normalised as \<open>pathlib\<close> keeps them: a flag for
  the root and the components. Only the operations the module calls are modelled.
\<close>

datatype Path = Path (anchored: bool) (parts: "string list")

definition path_str :: "Path \<Rightarrow> string" where
  "path_str p =
     (if anchored p then CHR ''/'' # join ''/'' (parts p)
      else if parts p = [] then ''.'' else join ''/'' (parts p))"

text \<open>\<open>Path.absolute()\<close>: an absolute path is returned as it is, another one is put under
  the working directory.\<close>

definition absolute :: "Path \<Rightarrow> Path \<Rightarrow> Path" where
  "absolute cwd p = (if anchored p then p else Path True (parts cwd @ parts p))"

text \<open>\<open>Path.relative_to(other)\<close> raises \<open>ValueError\<close> unless \<open>other\<close> is a prefix.\<close>

definition relative_to :: "Path \<Rightarrow> Path \<Rightarrow> exn + Path" where
  "relative_to p other =
     (if anchored p = anchored other \<and> take (length (parts other)) (parts p) = parts other
      then Inr (Path False (drop (length (parts other)) (parts p)))
      else Inl ValueError)"

text \<open>
  \<open>Path.as_uri()\<close>: \<open>ValueError\<close> for a relative path, otherwise \<open>file://\<close> followed by
  the path with every byte outside letters, digits and \<open>_.-~/\<close> written \<open>%XX\<close>.
\<close>

definition hex_char :: "nat \<Rightarrow> char" where
  "hex_char d = ''0123456789ABCDEF'' ! d"

definition uri_safe :: "char \<Rightarrow> bool" where
  "uri_safe c =
     (let n = (of_char c :: nat) in
      (65 \<le> n \<and> n \<le> 90) \<or> (97 \<le> n \<and> n \<le> 122) \<or> (48 \<le> n \<and> n \<le> 57) \<or>
      c \<in> set ''_.-~/'')"

definition quote_byte :: "char \<Rightarrow> string" where
  "quote_byte c =
     (if uri_safe c then [c]
      else [CHR ''%'', hex_char (of_char c div 16), hex_char (of_char c mod 16)])"

definition as_uri :: "Path \<Rightarrow> exn + string" where
  "as_uri p =
     (if anchored p then Inr (''file://'' @ concat (map quote_byte (path_str p)))
      else Inl ValueError)"

text \<open>
  \<open>os.stat_result\<close>, of which the module reads \<open>st_mtime\<close> only. The float is kept at the
  resolution \<open>datetime.fromtimestamp\<close> rounds it to: whole seconds since the epoch and
  microseconds.
\<close>

record stat_result =
  st_mtime_sec :: int
  st_mtime_usec :: nat

text \<open>
  The classes of the location hierarchy refer to each other: a \<open>LoadItem\<close> names the
  location that asked for it, a location file holds the \<open>LoadItem\<close> that produced it.
  \<open>LoadLocation\<close> is the protocol that \<open>LocationBlock\<close> and \<open>LocationFolder\<close> implement,
  \<open>LocationFile\<close> the one of \<open>NullLocationFile\<close> and \<open>FilesystemLocationFile\<close>.
\<close>

datatype LoadItem = LoadItem (item_specification: string) (source: "LoadLocation option")
and LoadLocation = OfBlock LocationBlock | OfFolder LocationFolder
and LocationFolder =
  LocationFolder (folder_path: Path) (folder_spec: LoadItem) (folder_root: "Path option")
and LocationFile =
  NullLocationFile (null_spec: LoadItem) (null_load_identifier: string)
| FilesystemLocationFile (local_path: Path) (fs_spec: LoadItem)
    (root_folder: "Path option") (stat_cache: "stat_result option")
and LocationSheet =
  LocationSheet (sheet_file: LocationFile) (sheet_name: "string option")
    (sheet_metadata: "(string \<times> string) list")
and LocationBlock = LocationBlock (sheet: LocationSheet) (row: int)


subsection \<open>Modification times\<close>

text \<open>
  A naive \<open>datetime.datetime\<close>. Its constructor checks the ranges of the fields and raises
  \<open>ValueError\<close> outside them.
\<close>

record datetime =
  year :: nat
  month :: nat
  day :: nat
  hour :: nat
  minute :: nat
  second :: nat
  microsecond :: nat

definition is_leap :: "nat \<Rightarrow> bool" where
  "is_leap y = (y mod 4 = 0 \<and> (y mod 100 \<noteq> 0 \<or> y mod 400 = 0))"

definition days_in_month :: "nat \<Rightarrow> nat \<Rightarrow> nat" where
  "days_in_month y m =
     (if m = 2 then (if is_leap y then 29 else 28)
      else if m \<in> {4, 6, 9, 11} then 30 else 31)"

definition valid_datetime :: "datetime \<Rightarrow> bool" where
  "valid_datetime d =
     (1 \<le> year d \<and> year d \<le> 9999 \<and> 1 \<le> month d \<and> month d \<le> 12 \<and>
      1 \<le> day d \<and> day d \<le> days_in_month (year d) (month d) \<and>
      hour d \<le> 23 \<and> minute d \<le> 59 \<and> second d \<le> 59 \<and> microsecond d \<le> 999999)"

definition datetime_new :: "nat \<Rightarrow> nat \<Rightarrow> nat \<Rightarrow> nat \<Rightarrow> nat \<Rightarrow> nat \<Rightarrow> nat \<Rightarrow> exn + datetime" where
  "datetime_new y mo d h mi s us =
     (let dt = \<lparr>year = y, month = mo, day = d, hour = h, minute = mi, second = s,
                microsecond = us\<rparr>
      in if valid_datetime dt then Inr dt else Inl ValueError)"

text \<open>
  \<open>time.localtime\<close> on whole seconds is the platform's: it depends on the time zone of the
  process, and raises on a time it cannot represent. It is a parameter of the model, next
  to the working directory and the file system that \<open>Path.stat\<close> reads.
\<close>

type_synonym struct_time = "nat \<times> nat \<times> nat \<times> nat \<times> nat \<times> nat"

record env =
  cwd :: Path
  stat_fs :: "Path \<Rightarrow> stat_result option"
  localtime :: "int \<Rightarrow> struct_time option"

text \<open>
  \<open>datetime.fromtimestamp(t)\<close> without a time zone: the calendar fields of the local time
  of the whole seconds, a leap second cut to 59, and the microseconds of \<open>t\<close>.
\<close>

definition fromtimestamp :: "env \<Rightarrow> stat_result \<Rightarrow> exn + datetime" where
  "fromtimestamp e st =
     (case localtime e (st_mtime_sec st) of
        None \<Rightarrow> Inl OverflowError
      | Some (y, mo, d, h, mi, s) \<Rightarrow> datetime_new y mo d h mi (min s 59) (st_mtime_usec st))"

text \<open>\<open>'%0Nd' % n\<close> for a natural number, and \<open>isoformat(timespec="seconds")\<close>.\<close>

definition zpad :: "nat \<Rightarrow> nat \<Rightarrow> string" where
  "zpad w n = replicate (w - length (str_nat n)) CHR ''0'' @ str_nat n"

definition isoformat_seconds :: "datetime \<Rightarrow> string" where
  "isoformat_seconds d =
     zpad 4 (year d) @ ''-'' @ zpad 2 (month d) @ ''-'' @ zpad 2 (day d) @ ''T'' @
     zpad 2 (hour d) @ '':'' @ zpad 2 (minute d) @ '':'' @ zpad 2 (second d)"

text \<open>
  The local time of a process whose time zone is UTC (\<open>time.gmtime\<close>), for the concrete
  instances below: days since the epoch to a civil date, seconds of the day to a time.
\<close>

definition civil_from_days :: "int \<Rightarrow> int \<times> int \<times> int" where
  "civil_from_days z0 =
     (let z = z0 + 719468;
          era = z div 146097;
          doe = z - era * 146097;
          yoe = (doe - doe div 1460 + doe div 36524 - doe div 146096) div 365;
          doy = doe - (365 * yoe + yoe div 4 - yoe div 100);
          mp = (5 * doy + 2) div 153;
          d = doy - (153 * mp + 2) div 5 + 1;
          m = (if mp < 10 then mp + 3 else mp - 9);
          y = yoe + era * 400 + (if m \<le> 2 then 1 else 0)
      in (y, m, d))"

definition gmtime :: "int \<Rightarrow> struct_time option" where
  "gmtime t =
     (let (y, m, d) = civil_from_days (t div 86400); sod = t mod 86400
      in if y < 0 then None
         else Some (nat y, nat m, nat d, nat (sod div 3600), nat (sod mod 3600 div 60),
                    nat (sod mod 60)))"

subsection \<open>Location files\<close>

text \<open>
  \<open>FilesystemLocationFile.get_stat_result\<close> fills the cache \<open>_stat_result\<close> from the file
  system when it is empty or when the caller asks for no cache; the file comes back with
  the cache as the call left it, also when the call raises. The methods of
  \<open>FilesystemLocationFile\<close> alone raise \<open>AttributeError\<close> on another location file.
\<close>

fun get_stat_result :: "env \<Rightarrow> bool \<Rightarrow> LocationFile \<Rightarrow> (exn + stat_result) \<times> LocationFile" where
  "get_stat_result e cached (FilesystemLocationFile p sp rf sc) =
     (case (if cached then sc else None) of
        Some st \<Rightarrow> (Inr st, FilesystemLocationFile p sp rf sc)
      | None \<Rightarrow>
          (case stat_fs e (absolute (cwd e) p) of
             None \<Rightarrow> (Inl OSError, FilesystemLocationFile p sp rf sc)
           | Some st \<Rightarrow> (Inr st, FilesystemLocationFile p sp rf (Some st))))"
| "get_stat_result e cached f = (Inl AttributeError, f)"

definition get_mtime :: "env \<Rightarrow> LocationFile \<Rightarrow> (exn + datetime) \<times> LocationFile" where
  "get_mtime e f =
     (case get_stat_result e True f of
        (Inl x, f') \<Rightarrow> (Inl x, f')
      | (Inr st, f') \<Rightarrow> (fromtimestamp e st, f'))"

text \<open>
  \<open>load_identifier\<close>: the stored identifier of a \<open>NullLocationFile\<close>; for a
  \<open>FilesystemLocationFile\<close> the absolute path, \<open>@\<close> and the modification time. A
  \<open>datetime\<close> is always true, so the branch that returns the path alone is never taken.
\<close>

fun load_identifier :: "env \<Rightarrow> LocationFile \<Rightarrow> (exn + string) \<times> LocationFile" where
  "load_identifier e (NullLocationFile sp ident) = (Inr ident, NullLocationFile sp ident)"
| "load_identifier e (FilesystemLocationFile p sp rf sc) =
     (let name_part = path_str (absolute (cwd e) p) in
      case get_mtime e (FilesystemLocationFile p sp rf sc) of
        (Inl x, f') \<Rightarrow> (Inl x, f')
      | (Inr mtime, f') \<Rightarrow> (Inr (name_part @ ''@'' @ isoformat_seconds mtime), f'))"

text \<open>\<open>LocationBlock.load_identifier\<close>; \<open>self.sheet_name or 'Sheet1'\<close> takes the default
  for a missing sheet name and for an empty one.\<close>

definition sheet_name_or_default :: "string option \<Rightarrow> string" where
  "sheet_name_or_default sn =
     (case sn of None \<Rightarrow> ''Sheet1'' | Some s \<Rightarrow> if s = [] then ''Sheet1'' else s)"

fun block_load_identifier :: "env \<Rightarrow> LocationBlock \<Rightarrow> (exn + string) \<times> LocationBlock" where
  "block_load_identifier e (LocationBlock (LocationSheet f sn md) r) =
     (case load_identifier e f of
        (Inl x, f') \<Rightarrow> (Inl x, LocationBlock (LocationSheet f' sn md) r)
      | (Inr fid, f') \<Rightarrow>
          (Inr (fid @ ''#'' @ squote (sheet_name_or_default sn) @ ''!A'' @ str_int r),
           LocationBlock (LocationSheet f' sn md) r))"

text \<open>
  The label of a location for a reader. An absent sheet or row prints nothing in
  \<open>LocationFile.get_interactive_identifier\<close>; the override of \<open>FilesystemLocationFile\<close>
  formats the row unconditionally, so that an absent row prints \<open>None\<close>, and names the
  path, relative to \<open>root_folder\<close> when there is one.
\<close>

definition str_opt_int :: "int option \<Rightarrow> string" where
  "str_opt_int r = (case r of None \<Rightarrow> ''None'' | Some i \<Rightarrow> str_int i)"

definition fs_interactive_identifier :: "Path \<Rightarrow> Path option \<Rightarrow> exn + string" where
  "fs_interactive_identifier p rf =
     (case rf of
        None \<Rightarrow> Inr (path_str p)
      | Some root \<Rightarrow>
          (case relative_to p root of Inl x \<Rightarrow> Inl x | Inr q \<Rightarrow> Inr (path_str q)))"

fun get_interactive_identifier :: "LocationFile \<Rightarrow> string option \<Rightarrow> int option \<Rightarrow> exn + string" where
  "get_interactive_identifier (NullLocationFile sp ident) sheet_arg row_arg =
     (let s_loc = (case sheet_arg of None \<Rightarrow> [] | Some s \<Rightarrow> '' Sheet '' @ squote s);
          r_loc = (case row_arg of None \<Rightarrow> [] | Some r \<Rightarrow> '' Row '' @ str_int r)
      in Inr (ident @ s_loc @ r_loc))"
| "get_interactive_identifier (FilesystemLocationFile p sp rf sc) sheet_arg row_arg =
     (let loc = (case sheet_arg of
                   None \<Rightarrow> ''Row '' @ str_opt_int row_arg
                 | Some s \<Rightarrow> squote s @ ''!A'' @ str_opt_int row_arg)
      in case fs_interactive_identifier p rf of
           Inl x \<Rightarrow> Inl x
         | Inr ident \<Rightarrow> Inr (loc @ '' of '' @ squote ident))"

fun file_interactive_identifier :: "LocationFile \<Rightarrow> exn + string" where
  "file_interactive_identifier (NullLocationFile sp ident) =
     get_interactive_identifier (NullLocationFile sp ident) None None"
| "file_interactive_identifier (FilesystemLocationFile p sp rf sc) =
     fs_interactive_identifier p rf"

definition block_interactive_identifier :: "LocationBlock \<Rightarrow> exn + string" where
  "block_interactive_identifier b =
     get_interactive_identifier (sheet_file (sheet b)) (sheet_name (sheet b)) (Some (row b))"

text \<open>
  \<open>interactive_uri\<close>: \<open>None\<close> for a \<open>NullLocationFile\<close>; for a \<open>FilesystemLocationFile\<close>
  the URI of the path, and a fragment when a sheet or a row is given. \<open>read_only\<close> is
  not used by either.
\<close>

fun interactive_uri :: "LocationFile \<Rightarrow> string option \<Rightarrow> int option \<Rightarrow> bool \<Rightarrow> exn + string option" where
  "interactive_uri (NullLocationFile sp ident) sheet_arg row_arg read_only = Inr None"
| "interactive_uri (FilesystemLocationFile p sp rf sc) sheet_arg row_arg read_only =
     (case as_uri p of
        Inl x \<Rightarrow> Inl x
      | Inr file_uri \<Rightarrow>
          if sheet_arg = None \<and> row_arg = None then Inr (Some file_uri)
          else
            let sheet1 = (case sheet_arg of None \<Rightarrow> ''Sheet1'' | Some s \<Rightarrow> s);
                row_mark = (case row_arg of None \<Rightarrow> [] | Some r \<Rightarrow> ''!A'' @ str_int r)
            in Inr (Some (file_uri @ ''#'' @ squote sheet1 @ row_mark)))"

definition block_interactive_uri :: "LocationBlock \<Rightarrow> bool \<Rightarrow> exn + string option" where
  "block_interactive_uri b read_only =
     interactive_uri (sheet_file (sheet b)) (sheet_name (sheet b)) (Some (row b)) read_only"

subsection \<open>The origin tree\<close>

text \<open>
  \<open>TableOrigin\<close> is a frozen dataclass of three fields, each with a default. In this
  datatype \<open>parents\<close> is a finite sequence (a tuple or a list; the default is the empty
  tuple) at every node; the other iterables come with the generator objects below.
\<close>

datatype TableOrigin =
  TableOrigin (input_location: "LocationBlock option") (parents: "TableOrigin list")
    (operation: "string option")

text \<open>The method \<open>_post_init_\<close>: the check of the leaf and branch shapes.\<close>

definition post_init :: "TableOrigin \<Rightarrow> exn + unit" where
  "post_init self =
     (if operation self = None then
        (if parents self \<noteq> [] \<or> input_location self = None then Inl ValueError else Inr ())
      else
        (if input_location self \<noteq> None \<or> parents self = [] then Inl ValueError else Inr ()))"

text \<open>
  The \<open>__init__\<close> that \<open>@dataclass\<close> generates stores the fields and then calls the method
  named \<open>__post_init__\<close> when the class has one. The class has the methods below by name;
  the check is there under the name \<open>_post_init_\<close>.
\<close>

definition TableOrigin_methods :: "(string \<times> (TableOrigin \<Rightarrow> exn + unit)) list" where
  "TableOrigin_methods = [(''_post_init_'', post_init)]"

definition TableOrigin_init ::
  "LocationBlock option \<Rightarrow> TableOrigin list \<Rightarrow> string option \<Rightarrow> exn + TableOrigin" where
  "TableOrigin_init il ps opn =
     (let self = TableOrigin il ps opn in
      case map_of TableOrigin_methods ''__post_init__'' of
        None \<Rightarrow> Inr self
      | Some hook \<Rightarrow> (case hook self of Inl x \<Rightarrow> Inl x | Inr u \<Rightarrow> Inr self))"

definition is_leaf :: "TableOrigin \<Rightarrow> bool" where
  "is_leaf self = (operation self = None)"

text \<open>
  A node is well formed when the check accepts it and its parents are well formed: the
  trees that a construction with the check in force would build.
\<close>

fun valid :: "TableOrigin \<Rightarrow> bool" where
  "valid (TableOrigin il ps opn) =
     (post_init (TableOrigin il ps opn) = Inr () \<and> (\<forall>p \<in> set ps. valid p))"

text \<open>
  \<open>get_input_ancestors\<close> is a generator. Its run is the sequence of the locations it
  yields and the way it ends: exhausted (\<open>None\<close>) or by an exception. A
  \<open>LocationBlock\<close> is a named tuple of two fields, so it is true wherever it is not
  \<open>None\<close>. An exception of the generator of a parent ends the generators around it.
\<close>

type_synonym 'a run = "'a list \<times> exn option"

fun get_input_ancestors :: "TableOrigin \<Rightarrow> LocationBlock run"
and ancestors_of_parents :: "TableOrigin list \<Rightarrow> LocationBlock run" where
  "get_input_ancestors (TableOrigin il ps opn) =
     (if is_leaf (TableOrigin il ps opn) then
        (case il of Some loc \<Rightarrow> ([loc], None) | None \<Rightarrow> ([], Some ValueError))
      else ancestors_of_parents ps)"
| "ancestors_of_parents [] = ([], None)"
| "ancestors_of_parents (p # ps) =
     (case get_input_ancestors p of
        (ys, Some x) \<Rightarrow> (ys, Some x)
      | (ys, None) \<Rightarrow> (case ancestors_of_parents ps of (zs, r) \<Rightarrow> (ys @ zs, r)))"

text \<open>
  The field \<open>parents\<close> is declared \<open>Iterable["TableOrigin"]\<close>. An iterable is a
  sequence (a tuple, a list), of which \<open>iter\<close> makes a new iterator at the first item on
  every call, or a one-shot iterator (\<open>iter(xs)\<close>, a generator, \<open>map\<close>), of which
  \<open>iter\<close> returns the object itself. A one-shot iterator is an object with state: it is
  in a store, at an address, with the items it has not given yet; here it gives finitely
  many items and does not raise. The nodes below have parents of either kind.
\<close>

datatype origin =
  Origin (origin_location: "LocationBlock option") (origin_parents: iterable)
    (origin_operation: "string option")
and iterable = Sequence "origin list" | Iterator nat

text \<open>A \<open>TableOrigin\<close> whose parents are sequences at every branch, as such a node.\<close>

fun as_origin :: "TableOrigin \<Rightarrow> origin" where
  "as_origin (TableOrigin il ps opn) = Origin il (Sequence (map as_origin ps)) opn"

type_synonym store = "origin list list"

text \<open>
  \<open>_post_init_\<close> and \<open>is_leaf\<close> on such a node. A sequence is true when it is not empty;
  an iterator object is true.
\<close>

fun truthy :: "iterable \<Rightarrow> bool" where
  "truthy (Sequence ps) = (ps \<noteq> [])"
| "truthy (Iterator a) = True"

definition origin_post_init :: "origin \<Rightarrow> exn + unit" where
  "origin_post_init self =
     (if origin_operation self = None then
        (if truthy (origin_parents self) \<or> origin_location self = None then Inl ValueError
         else Inr ())
      else
        (if origin_location self \<noteq> None \<or> \<not> truthy (origin_parents self) then Inl ValueError
         else Inr ()))"

definition origin_is_leaf :: "origin \<Rightarrow> bool" where
  "origin_is_leaf self = (origin_operation self = None)"

text \<open>
  The iterator that the \<open>for\<close> loop of \<open>get_input_ancestors\<close> obtains from
  \<open>iter(self.parents)\<close>: one of its own over a sequence, with the items left, or the shared
  one-shot iterator.
\<close>

datatype cursor = Own "origin list" | Shared nat

fun iter :: "iterable \<Rightarrow> cursor" where
  "iter (Sequence ps) = Own ps"
| "iter (Iterator a) = Shared a"

text \<open>
  The generator as an object. A call of \<open>get_input_ancestors\<close> returns a generator that
  has not started; each \<open>next\<close> resumes it until it yields, is exhausted or raises. A
  generator of a leaf is suspended at its \<open>yield\<close>. A started generator of a branch is
  suspended inside \<open>yield from\<close>, in the generator of one of its parents, and so on down
  to the generator of a leaf: a generator is this chain of frames, the innermost first.
  When the innermost frame ends, the loop of the frame around it takes the next parent
  from its iterator.
\<close>

datatype 'a event = Yield 'a | Stop | Raise exn

datatype frame = Start origin | AtYield | Loop cursor

type_synonym gen = "frame list"

text \<open>A measure of the work a generator has left, for the termination of \<open>next\<close>.\<close>

fun weight :: "origin \<Rightarrow> nat" and weight_parents :: "iterable \<Rightarrow> nat" where
  "weight (Origin il par opn) = Suc (weight_parents par)"
| "weight_parents (Sequence ps) = Suc (sum_list (map (\<lambda>p. Suc (weight p)) ps))"
| "weight_parents (Iterator a) = 1"

definition items_weight :: "origin list \<Rightarrow> nat" where
  "items_weight ps = sum_list (map (\<lambda>p. Suc (weight p)) ps)"

fun frame_weight :: "frame \<Rightarrow> nat" where
  "frame_weight (Start n) = weight n"
| "frame_weight AtYield = 1"
| "frame_weight (Loop (Own ps)) = Suc (items_weight ps)"
| "frame_weight (Loop (Shared a)) = 1"

definition gen_weight :: "gen \<times> store \<Rightarrow> nat" where
  "gen_weight gs = sum_list (map frame_weight (fst gs)) + sum_list (map items_weight (snd gs))"

lemma store_weight_update:
  "a < length s \<Longrightarrow> s ! a = p # ps \<Longrightarrow>
   sum_list (map items_weight (s[a := ps])) + Suc (weight p) = sum_list (map items_weight s)"
proof (induction s arbitrary: a)
  case Nil
  then show ?case by simp
next
  case (Cons x s)
  then show ?case by (cases a) (auto simp: items_weight_def)
qed

text \<open>
  \<open>next(g)\<close> in a store of iterators: the event, the generator and the store after it.
  An exception leaves through every frame. An address outside the store is read as an
  exhausted iterator.
\<close>

function gen_next :: "gen \<Rightarrow> store \<Rightarrow> LocationBlock event \<times> gen \<times> store" where
  "gen_next [] s = (Stop, [], s)"
| "gen_next (Start (Origin il par opn) # fs) s =
     (if origin_is_leaf (Origin il par opn) then
        (case il of
           Some loc \<Rightarrow> (Yield loc, AtYield # fs, s)
         | None \<Rightarrow> (Raise ValueError, [], s))
      else gen_next (Loop (iter par) # fs) s)"
| "gen_next (AtYield # fs) s = gen_next fs s"
| "gen_next (Loop (Own []) # fs) s = gen_next fs s"
| "gen_next (Loop (Own (p # ps)) # fs) s = gen_next (Start p # Loop (Own ps) # fs) s"
| "gen_next (Loop (Shared a) # fs) s =
     (if a < length s then
        (case s ! a of
           [] \<Rightarrow> gen_next fs s
         | p # ps \<Rightarrow> gen_next (Start p # Loop (Shared a) # fs) (s[a := ps]))
      else gen_next fs s)"
  by pat_completeness auto
termination
proof (relation "measure (\<lambda>(g, s). gen_weight (g, s))")
  show "wf (measure (\<lambda>(g, s). gen_weight (g, s)))" by simp
next
  fix il par opn fs s
  show "((Loop (iter par) # fs, s), Start (Origin il par opn) # fs, s)
         \<in> measure (\<lambda>(g, s). gen_weight (g, s))"
    by (cases par) (simp_all add: gen_weight_def items_weight_def)
next
  fix fs s
  show "((fs, s), AtYield # fs, s) \<in> measure (\<lambda>(g, s). gen_weight (g, s))"
    by (simp add: gen_weight_def)
next
  fix fs s
  show "((fs, s), Loop (Own []) # fs, s) \<in> measure (\<lambda>(g, s). gen_weight (g, s))"
    by (simp add: gen_weight_def)
next
  fix p ps fs s
  show "((Start p # Loop (Own ps) # fs, s), Loop (Own (p # ps)) # fs, s)
         \<in> measure (\<lambda>(g, s). gen_weight (g, s))"
    by (simp add: gen_weight_def items_weight_def)
next
  fix a fs s
  show "((fs, s), Loop (Shared a) # fs, s) \<in> measure (\<lambda>(g, s). gen_weight (g, s))"
    by (simp add: gen_weight_def)
next
  fix a fs and s :: store and p ps
  assume "a < length s" "s ! a = p # ps"
  from store_weight_update [OF this]
  show "((Start p # Loop (Shared a) # fs, s[a := ps]), Loop (Shared a) # fs, s)
         \<in> measure (\<lambda>(g, s). gen_weight (g, s))"
    by (simp add: gen_weight_def)
next
  fix a fs s
  show "((fs, s), Loop (Shared a) # fs, s) \<in> measure (\<lambda>(g, s). gen_weight (g, s))"
    by (simp add: gen_weight_def)
qed


lemma weight_parents_pos: "0 < weight_parents par"
  by (cases par) simp_all

lemma gen_next_decreases:
  "gen_next g s = (Yield x, g1, s1) \<Longrightarrow> gen_weight (g1, s1) < gen_weight (g, s)"
proof (induction g s rule: gen_next.induct)
  case (1 s)
  then show ?case by simp
next
  case (2 il par opn fs s)
  show ?case
  proof (cases "opn = None")
    case True
    with "2.prems" weight_parents_pos [of par] show ?thesis
      by (auto simp: gen_weight_def origin_is_leaf_def split: option.splits)
  next
    case False
    with "2.prems" "2.IH" have "gen_weight (g1, s1) < gen_weight (Loop (iter par) # fs, s)"
      by (simp add: origin_is_leaf_def)
    then show ?thesis
      by (cases par) (simp_all add: gen_weight_def items_weight_def)
  qed
next
  case (3 fs s)
  then show ?case by (simp add: gen_weight_def)
next
  case (4 fs s)
  then show ?case by (simp add: gen_weight_def)
next
  case (5 p ps fs s)
  then show ?case by (simp add: gen_weight_def items_weight_def)
next
  case (6 a fs s)
  show ?case
  proof (cases "a < length s")
    case False
    with "6.prems" "6.IH"(3) show ?thesis by (simp add: gen_weight_def)
  next
    case True
    show ?thesis
    proof (cases "s ! a")
      case Nil
      with True "6.prems" "6.IH"(1) show ?thesis by (simp add: gen_weight_def)
    next
      case (Cons p ps)
      with True "6.prems" "6.IH"(2)
      have "gen_weight (g1, s1) < gen_weight (Start p # Loop (Shared a) # fs, s[a := ps])"
        by simp
      with store_weight_update [OF True Cons] show ?thesis
        by (simp add: gen_weight_def)
    qed
  qed
qed

text \<open>\<open>list(g)\<close> with the way the iteration ends, and the store after it.\<close>

function gen_run :: "gen \<Rightarrow> store \<Rightarrow> LocationBlock run \<times> store" where
  "gen_run g s =
     (case gen_next g s of
        (Yield x, g1, s1) \<Rightarrow> (case gen_run g1 s1 of ((xs, r), s2) \<Rightarrow> ((x # xs, r), s2))
      | (Stop, g1, s1) \<Rightarrow> (([], None), s1)
      | (Raise x, g1, s1) \<Rightarrow> (([], Some x), s1))"
  by pat_completeness auto
termination
  by (relation "measure (\<lambda>(g, s). gen_weight (g, s))") (auto simp: gen_next_decreases [OF sym])

declare gen_run.simps [simp del]

text \<open>
  Generator objects are at addresses too. A call allocates a new one; \<open>next\<close> and
  \<open>list\<close> on an address change the generator at that address and the store of
  iterators.
\<close>

type_synonym heap = "gen list \<times> store"

definition call_get_input_ancestors :: "origin \<Rightarrow> heap \<Rightarrow> nat \<times> heap" where
  "call_get_input_ancestors self st = (length (fst st), (fst st @ [[Start self]], snd st))"

definition next_at :: "nat \<Rightarrow> heap \<Rightarrow> (LocationBlock event \<times> heap) option" where
  "next_at i st =
     (if i < length (fst st) then
        (case gen_next (fst st ! i) (snd st) of (ev, g1, s1) \<Rightarrow> Some (ev, ((fst st)[i := g1], s1)))
      else None)"

fun advance :: "nat \<Rightarrow> nat \<Rightarrow> heap \<Rightarrow> heap" where
  "advance 0 i st = st"
| "advance (Suc k) i st = (case next_at i st of None \<Rightarrow> st | Some (ev, st1) \<Rightarrow> advance k i st1)"

definition list_at :: "nat \<Rightarrow> heap \<Rightarrow> (LocationBlock run \<times> heap) option" where
  "list_at i st =
     (if i < length (fst st) then
        (case gen_run (fst st ! i) (snd st) of (r, s1) \<Rightarrow> Some (r, ((fst st)[i := []], s1)))
      else None)"

text \<open>
  Two successive calls on a node, each generator then read to its end:
  \<^verbatim>\<open>g1 = t.get_input_ancestors(); g2 = t.get_input_ancestors(); r1 = list(g1); r2 = list(g2)\<close>;
  and the second generator read to its end after \<open>k\<close> \<open>next\<close> on the first.
\<close>

definition two_calls :: "origin \<Rightarrow> heap \<Rightarrow> (LocationBlock run \<times> LocationBlock run) option" where
  "two_calls self st =
     (case call_get_input_ancestors self st of (g1, st1) \<Rightarrow>
      case call_get_input_ancestors self st1 of (g2, st2) \<Rightarrow>
      case list_at g1 st2 of
        None \<Rightarrow> None
      | Some (r1, st3) \<Rightarrow>
          (case list_at g2 st3 of None \<Rightarrow> None | Some (r2, st4) \<Rightarrow> Some (r1, r2)))"

definition second_after :: "nat \<Rightarrow> origin \<Rightarrow> heap \<Rightarrow> LocationBlock run option" where
  "second_after k self st =
     (case call_get_input_ancestors self st of (g1, st1) \<Rightarrow>
      case call_get_input_ancestors self st1 of (g2, st2) \<Rightarrow>
      map_option fst (list_at g2 (advance k g1 st2)))"

text \<open>
  For the proofs: one run after another, which stops at the first exception; the
  \<open>TableOrigin\<close> behind a node of sequences; the frames whose iterators are their own,
  and what they have left to yield.
\<close>

fun seq_run :: "'a run \<Rightarrow> 'a run \<Rightarrow> 'a run" where
  "seq_run (xs, Some x) r = (xs, Some x)"
| "seq_run (xs, None) (ys, r) = (xs @ ys, r)"

fun origin_of :: "origin \<Rightarrow> TableOrigin" and parents_of :: "iterable \<Rightarrow> TableOrigin list" where
  "origin_of (Origin il par opn) = TableOrigin il (parents_of par) opn"
| "parents_of (Sequence ps) = map origin_of ps"
| "parents_of (Iterator a) = []"

fun sequences :: "origin \<Rightarrow> bool" and sequences_parents :: "iterable \<Rightarrow> bool" where
  "sequences (Origin il par opn) = sequences_parents par"
| "sequences_parents (Sequence ps) = list_all sequences ps"
| "sequences_parents (Iterator a) = False"

fun pure_frame :: "frame \<Rightarrow> bool" where
  "pure_frame (Start n) = sequences n"
| "pure_frame AtYield = True"
| "pure_frame (Loop (Own ps)) = list_all sequences ps"
| "pure_frame (Loop (Shared a)) = False"

fun frame_run :: "frame \<Rightarrow> LocationBlock run" where
  "frame_run (Start n) = get_input_ancestors (origin_of n)"
| "frame_run AtYield = ([], None)"
| "frame_run (Loop (Own ps)) = ancestors_of_parents (map origin_of ps)"
| "frame_run (Loop (Shared a)) = ([], None)"

fun frames_run :: "gen \<Rightarrow> LocationBlock run" where
  "frames_run [] = ([], None)"
| "frames_run (f # fs) = seq_run (frame_run f) (frames_run fs)"

fun event_run :: "LocationBlock event \<Rightarrow> gen \<Rightarrow> LocationBlock run" where
  "event_run (Yield x) g = (x # fst (frames_run g), snd (frames_run g))"
| "event_run Stop g = ([], None)"
| "event_run (Raise x) g = ([], Some x)"

subsection \<open>Renderings of an origin tree\<close>

text \<open>
  \<open>html.escape\<close> with its default \<open>quote=True\<close>: the five characters \<open>&\<close>, \<open><\<close>, \<open>>\<close>, the
  double quote and the apostrophe are replaced. The library replaces \<open>&\<close> first and then
  the others, which is the same text as replacing each character once.
\<close>

definition dquote :: char where
  "dquote = CHR 0x22"

definition newline :: char where
  "newline = CHR 0x0A"

definition escape_char :: "char \<Rightarrow> string" where
  "escape_char c =
     (if c = CHR ''&'' then ''&amp;''
      else if c = CHR ''<'' then ''&lt;''
      else if c = CHR ''>'' then ''&gt;''
      else if c = dquote then ''&quot;''
      else if c = CHR 0x27 then ''&#x27;''
      else [c])"

definition html_escape :: "string \<Rightarrow> string" where
  "html_escape s = concat (map escape_char s)"

text \<open>\<open>f"{x}"\<close> of an optional string: \<open>None\<close> prints as \<open>None\<close>.\<close>

definition str_opt :: "string option \<Rightarrow> string" where
  "str_opt x = (case x of None \<Rightarrow> ''None'' | Some s \<Rightarrow> s)"

text \<open>
  \<open>table_origin_as_html\<close>. \<open>visit\<close> takes a node without a location for a branch. The leaf
  formats the result of \<open>interactive_uri()\<close> into the \<open>href\<close> attribute as it is and
  escapes the label; the branch escapes the operation, which raises \<open>AttributeError\<close> on
  \<open>None\<close>, and joins the items of the parents by a line break.
\<close>

fun html_visit :: "TableOrigin \<Rightarrow> exn + string"
and html_visit_parents :: "TableOrigin list \<Rightarrow> exn + string list" where
  "html_visit (TableOrigin il ps opn) =
     (case il of
        Some loc \<Rightarrow>
          (case block_interactive_uri loc False of
             Inl x \<Rightarrow> Inl x
           | Inr uri \<Rightarrow>
               (case block_interactive_identifier loc of
                  Inl x \<Rightarrow> Inl x
                | Inr ident \<Rightarrow>
                    Inr (''<a href='' @ [dquote] @ str_opt uri @ [dquote] @ '' class='' @
                         [dquote] @ ''input-table-origin'' @ [dquote] @ ''>'' @
                         html_escape ident @ ''</a>'')))
      | None \<Rightarrow>
          (case opn of
             None \<Rightarrow> Inl AttributeError
           | Some opname \<Rightarrow>
               (case html_visit_parents ps of
                  Inl x \<Rightarrow> Inl x
                | Inr items \<Rightarrow>
                    Inr (''<div class='' @ [dquote] @ ''derived-table-origin'' @ [dquote] @
                         ''><span>'' @ html_escape opname @ ''</span><ul>'' @
                         join [newline] items @ ''</ul></div>''))))"
| "html_visit_parents [] = Inr []"
| "html_visit_parents (p # ps) =
     (case html_visit p of
        Inl x \<Rightarrow> Inl x
      | Inr h \<Rightarrow>
          (case html_visit_parents ps of
             Inl x \<Rightarrow> Inl x
           | Inr hs \<Rightarrow> Inr ((''<li>'' @ h @ ''</li>'') # hs)))"

definition table_origin_as_html :: "TableOrigin \<Rightarrow> exn + string" where
  "table_origin_as_html tt = html_visit tt"




subsection \<open>Input issues and their trackers\<close>

text \<open>The levels of \<open>logging\<close> that the module names.\<close>

definition logging_ERROR :: int where
  "logging_ERROR = 40"

definition logging_WARNING :: int where
  "logging_WARNING = 30"

datatype issue_content = IssueStr string | IssueException exn

record InputIssue =
  issue :: issue_content
  load_item :: "LoadItem option"
  location_file :: "LocationFile option"
  origin :: "TableOrigin option"
  severity :: int

text \<open>
  \<open>InputIssueTracker\<close> is abstract in \<open>add_issue\<close> and \<open>issues\<close>: the methods it defines
  take the two of the subclass as arguments. \<open>'t\<close> is the state of the tracker and \<open>'x\<close>
  what \<open>add_issue\<close> may raise.
\<close>

definition add_error ::
  "('t \<Rightarrow> InputIssue \<Rightarrow> 'x + 't) \<Rightarrow> 't \<Rightarrow> issue_content \<Rightarrow> LoadItem option \<Rightarrow>
   LocationFile option \<Rightarrow> TableOrigin option \<Rightarrow> 'x + 't" where
  "add_error add_issue self iss li lf org =
     add_issue self \<lparr>issue = iss, load_item = li, location_file = lf, origin = org,
                     severity = logging_ERROR\<rparr>"

definition add_warning ::
  "('t \<Rightarrow> InputIssue \<Rightarrow> 'x + 't) \<Rightarrow> 't \<Rightarrow> issue_content \<Rightarrow> LoadItem option \<Rightarrow>
   LocationFile option \<Rightarrow> TableOrigin option \<Rightarrow> 'x + 't" where
  "add_warning add_issue self iss li lf org =
     add_issue self \<lparr>issue = iss, load_item = li, location_file = lf, origin = org,
                     severity = logging_WARNING\<rparr>"

definition is_ok :: "('t \<Rightarrow> InputIssue list) \<Rightarrow> 't \<Rightarrow> bool" where
  "is_ok issues self = (\<not> list_ex (\<lambda>m. severity m \<ge> logging_ERROR) (issues self))"

text \<open>
  \<open>NullInputIssueTracker\<close> has no field; \<open>add_issue\<close> raises \<open>InputError\<close> with the issue,
  and it overrides \<open>is_ok\<close> and \<open>issues\<close> by constants.
\<close>

datatype NullInputIssueTracker = NullInputIssueTracker

datatype InputError = InputError InputIssue

definition null_add_issue :: "NullInputIssueTracker \<Rightarrow> InputIssue \<Rightarrow> InputError + NullInputIssueTracker" where
  "null_add_issue self iss = Inl (InputError iss)"

definition null_is_ok :: "NullInputIssueTracker \<Rightarrow> bool" where
  "null_is_ok self = True"

definition null_issues :: "NullInputIssueTracker \<Rightarrow> InputIssue list" where
  "null_issues self = []"

text \<open>
  A caller that goes on after an \<open>InputError\<close>: it makes the calls of a list one after
  the other on the tracker and collects what was raised.
\<close>

datatype add_call =
  AddIssue InputIssue
| AddError issue_content "LoadItem option" "LocationFile option" "TableOrigin option"
| AddWarning issue_content "LoadItem option" "LocationFile option" "TableOrigin option"

fun null_call :: "NullInputIssueTracker \<Rightarrow> add_call \<Rightarrow> InputError + NullInputIssueTracker" where
  "null_call self (AddIssue iss) = null_add_issue self iss"
| "null_call self (AddError iss li lf org) = add_error null_add_issue self iss li lf org"
| "null_call self (AddWarning iss li lf org) = add_warning null_add_issue self iss li lf org"

fun attempt_all ::
  "NullInputIssueTracker \<Rightarrow> add_call list \<Rightarrow> NullInputIssueTracker \<times> InputError list" where
  "attempt_all self [] = (self, [])"
| "attempt_all self (c # cs) =
     (case null_call self c of
        Inl x \<Rightarrow> (case attempt_all self cs of (t, raised) \<Rightarrow> (t, x # raised))
      | Inr self1 \<Rightarrow> attempt_all self1 cs)"

subsection \<open>The text rendering as the specification words it\<close>



subsection \<open>Concrete instances\<close>

text \<open>
  A process in the time zone UTC and two sources: the file \<open>/data/input.csv\<close>, whose
  cached modification time is 2023-01-01T00:00:00 (1672531200 seconds after the epoch),
  and a source without a file.
\<close>

definition utc_env :: env where
  "utc_env = \<lparr>cwd = Path True [''work''], stat_fs = (\<lambda>p. None), localtime = gmtime\<rparr>"

definition input_csv_at :: "int \<Rightarrow> nat \<Rightarrow> LocationFile" where
  "input_csv_at sec usec =
     FilesystemLocationFile (Path True [''data'', ''input.csv''])
       (LoadItem ''/data/input.csv'' None) None
       (Some \<lparr>st_mtime_sec = sec, st_mtime_usec = usec\<rparr>)"

definition input_csv :: LocationFile where
  "input_csv = input_csv_at 1672531200 0"

definition unknown_file :: LocationFile where
  "unknown_file = NullLocationFile (LoadItem ''Unknown'' None) ''Unknown-MFRGGZDF''"

definition block_a :: LocationBlock where
  "block_a = LocationBlock (LocationSheet input_csv None []) 5"

definition block_b :: LocationBlock where
  "block_b = LocationBlock (LocationSheet unknown_file (Some ''S'') []) 7"

definition leaf_a :: TableOrigin where
  "leaf_a = TableOrigin (Some block_a) [] None"

definition leaf_b :: TableOrigin where
  "leaf_b = TableOrigin (Some block_b) [] None"

definition merged :: TableOrigin where
  "merged = TableOrigin None [leaf_a, leaf_b] (Some ''merge'')"

text \<open>A block whose sheet name holds a double quote and angle brackets.\<close>

definition hostile_sheet :: string where
  "hostile_sheet = ''x'' @ [dquote] @ ''><b>''"

definition hostile_block :: LocationBlock where
  "hostile_block = LocationBlock (LocationSheet input_csv (Some hostile_sheet) []) 1"

definition hostile_uri :: string where
  "hostile_uri = ''file:///data/input.csv#'' @ squote hostile_sheet @ ''!A1''"

text \<open>A time in the first minute of 2023.\<close>

definition new_year :: "nat \<Rightarrow> nat \<Rightarrow> datetime" where
  "new_year s u =
     \<lparr>year = 2023, month = 1, day = 1, hour = 0, minute = 0, second = s, microsecond = u\<rparr>"

text \<open>
  The branch \<open>merged\<close> with its parents given as \<open>iter((leaf_a, leaf_b))\<close>, and the store
  that holds this iterator at address 0.
\<close>

definition merged_once :: origin where
  "merged_once = Origin None (Iterator 0) (Some ''merge'')"

definition parents_once :: store where
  "parents_once = [[as_origin leaf_a, as_origin leaf_b]]"




section \<open>Properties\<close>

subsection \<open>Construction of a node\<close>

text \<open>
  Claim C10. Constructing \<open>TableOrigin\<close> with all default arguments (no location, no
  parents, no operation) succeeds, and \<open>get_input_ancestors\<close> on the resulting node
  raises \<open>ValueError\<close> without yielding any location.
\<close>

theorem default_construction_accepted:
  "TableOrigin_init None [] None = Inr (TableOrigin None [] None) \<and>
   get_input_ancestors (TableOrigin None [] None) = ([], Some ValueError)"
  by (simp add: TableOrigin_init_def TableOrigin_methods_def is_leaf_def)

text \<open>
  Claim C1, evaluated on the code. Construction returns the node for every combination of
  the fields, since no method of the class is named \<open>__post_init__\<close>; the check
  \<open>_post_init_\<close> would have refused the node with a location, a parent and an operation,
  and the node with none of them.
\<close>

theorem construction_never_checks:
  "TableOrigin_init il ps opn = Inr (TableOrigin il ps opn) \<and>
   post_init (TableOrigin (Some block_a) [leaf_b] (Some ''merge'')) = Inl ValueError \<and>
   post_init (TableOrigin None [] None) = Inl ValueError \<and>
   TableOrigin_init (Some block_a) [leaf_b] (Some ''merge'') =
     Inr (TableOrigin (Some block_a) [leaf_b] (Some ''merge''))"
  by (simp add: TableOrigin_init_def TableOrigin_methods_def post_init_def)

theorem construction_never_checks_witness:
  "TableOrigin_init (Some block_b) [leaf_a, leaf_b] (Some ''concat'') =
     Inr (TableOrigin (Some block_b) [leaf_a, leaf_b] (Some ''concat'')) \<and>
   post_init (TableOrigin (Some block_b) [leaf_a, leaf_b] (Some ''concat'')) = Inl ValueError"
  using construction_never_checks [of "Some block_b" "[leaf_a, leaf_b]" "Some ''concat''"]
  by (simp add: post_init_def)

subsection \<open>Ancestors\<close>

lemma valid_runs:
  "valid t \<Longrightarrow> snd (get_input_ancestors t) = None"
  "(\<forall>p \<in> set ps. valid p) \<Longrightarrow>
     ancestors_of_parents ps = (concat (map (\<lambda>p. fst (get_input_ancestors p)) ps), None)"
proof (induction t and ps rule: get_input_ancestors_ancestors_of_parents.induct)
  case (1 il ps opn)
  then show ?case
    by (auto simp: post_init_def is_leaf_def split: if_splits option.splits)
next
  case 2
  then show ?case by simp
next
  case (3 p ps)
  then show ?case
    by (cases "get_input_ancestors p") (auto split: option.splits prod.splits)
qed

lemma ancestors_Cons:
  "ancestors_of_parents (p # ps) = seq_run (get_input_ancestors p) (ancestors_of_parents ps)"
  by (cases "get_input_ancestors p"; cases "ancestors_of_parents ps") (auto split: option.splits)

lemma seq_run_Nil: "seq_run ([], None) q = q"
  by (cases q) simp

lemma seq_run_Nil2: "seq_run q ([], None) = q"
  by (cases q; cases "snd q") auto

lemma seq_run_Cons:
  "seq_run (x # xs, r) q = (x # fst (seq_run (xs, r) q), snd (seq_run (xs, r) q))"
  by (cases r; cases q) auto

lemma seq_run_assoc: "seq_run (seq_run a b) c = seq_run a (seq_run b c)"
  by (cases a; cases b; cases c; cases "snd a"; cases "snd b") auto

lemma origin_of_as_origin: "origin_of (as_origin t) = t \<and> sequences (as_origin t)"
  by (induction t rule: as_origin.induct) (simp add: map_idI list_all_iff)

lemma gen_next_pure:
  "list_all pure_frame g \<Longrightarrow> gen_next g s = (ev, g1, s1) \<Longrightarrow>
   s1 = s \<and> list_all pure_frame g1 \<and> frames_run g = event_run ev g1"
proof (induction g s rule: gen_next.induct)
  case (1 s)
  then show ?case by auto
next
  case (2 il par opn fs s)
  then obtain ps where par: "par = Sequence ps" by (cases par) auto
  show ?case
  proof (cases "opn = None")
    case True
    with "2.prems" par show ?thesis
      by (cases "frames_run fs")
         (auto simp: is_leaf_def origin_is_leaf_def seq_run_Nil split: option.splits)
  next
    case False
    with "2.prems" par "2.IH" show ?thesis
      by (auto simp: is_leaf_def origin_is_leaf_def)
  qed
next
  case (3 fs s)
  then show ?case by (auto simp: seq_run_Nil)
next
  case (4 fs s)
  then show ?case by (auto simp: seq_run_Nil)
next
  case (5 p ps fs s)
  then show ?case
    by (auto simp: ancestors_Cons seq_run_assoc simp del: ancestors_of_parents.simps)
next
  case (6 a fs s)
  then show ?case by simp
qed

lemma gen_next_append:
  "list_all pure_frame g \<Longrightarrow>
   gen_next (g @ gs) s2 =
     (case gen_next g s of
        (Yield x, g1, s1) \<Rightarrow> (Yield x, g1 @ gs, s2)
      | (Stop, g1, s1) \<Rightarrow> gen_next gs s2
      | (Raise x, g1, s1) \<Rightarrow> (Raise x, [], s2))"
proof (induction g s rule: gen_next.induct)
  case (1 s)
  then show ?case by simp
next
  case (2 il par opn fs s)
  then obtain ps where par: "par = Sequence ps" by (cases par) auto
  with "2.prems" "2.IH" show ?case
    by (auto simp: origin_is_leaf_def split: option.splits)
next
  case (3 fs s)
  then show ?case by simp
next
  case (4 fs s)
  then show ?case by simp
next
  case (5 p ps fs s)
  then show ?case by simp
next
  case (6 a fs s)
  then show ?case by simp
qed

lemma gen_run_cong: "gen_next g s = gen_next g' s' \<Longrightarrow> gen_run g s = gen_run g' s'"
  by (subst gen_run.simps, subst (2) gen_run.simps) simp

lemma gen_run_append:
  fixes s :: store
  shows "list_all pure_frame g \<Longrightarrow>
   gen_run (g @ gs) s2 =
     (case frames_run g of
        (xs, Some x) \<Rightarrow> ((xs, Some x), s2)
      | (xs, None) \<Rightarrow> (case gen_run gs s2 of ((ys, r), s3) \<Rightarrow> ((xs @ ys, r), s3)))"
proof (induction g s arbitrary: gs s2 rule: gen_run.induct)
  case (1 g s)
  obtain ev g1 s1 where n: "gen_next g s = (ev, g1, s1)" by (cases "gen_next g s")
  note p = gen_next_pure [OF "1.prems" n]
  note a = gen_next_append [OF "1.prems", of gs s2 s]
  show ?case
  proof (cases ev)
    case (Yield x)
    with n a have "gen_next (g @ gs) s2 = (Yield x, g1 @ gs, s2)" by simp
    then have "gen_run (g @ gs) s2 =
      (case gen_run (g1 @ gs) s2 of ((xs, r), s3) \<Rightarrow> ((x # xs, r), s3))"
      by (subst gen_run.simps) simp
    also have "gen_run (g1 @ gs) s2 =
      (case frames_run g1 of
        (xs, Some x) \<Rightarrow> ((xs, Some x), s2)
      | (xs, None) \<Rightarrow> (case gen_run gs s2 of ((ys, r), s3) \<Rightarrow> ((xs @ ys, r), s3)))"
      using "1.IH" [OF n [symmetric, unfolded Yield] refl refl] p by simp
    finally show ?thesis
      using p Yield
      by (cases "frames_run g1"; cases "snd (frames_run g1)"; cases "gen_run gs s2")
         (auto split: prod.splits)
  next
    case Stop
    with n a have "gen_next (g @ gs) s2 = gen_next gs s2" by simp
    then have "gen_run (g @ gs) s2 = gen_run gs s2" by (rule gen_run_cong)
    with p Stop show ?thesis by (cases "gen_run gs s2") auto
  next
    case (Raise e)
    with n a have "gen_next (g @ gs) s2 = (Raise e, [], s2)" by simp
    then have "gen_run (g @ gs) s2 = (([], Some e), s2)"
      by (subst gen_run.simps) simp
    with p Raise show ?thesis by simp
  qed
qed


lemma gen_run_Nil: "gen_run [] s = (([], None), s)"
  by (subst gen_run.simps) simp

lemma gen_run_pure: "list_all pure_frame g \<Longrightarrow> gen_run g s = (frames_run g, s)"
  using gen_run_append [of g "[]" s]
  by (cases "frames_run g"; cases "snd (frames_run g)") (auto simp: gen_run_Nil)

lemma gen_run_sequences: "gen_run [Start (as_origin t)] s = (get_input_ancestors t, s)"
  using gen_run_pure [of "[Start (as_origin t)]" s]
  by (simp add: origin_of_as_origin seq_run_Nil2)

lemma gen_run_shared:
  "a < length s \<Longrightarrow> s ! a = map as_origin ps \<Longrightarrow>
   \<forall>p \<in> set ps. snd (get_input_ancestors p) = None \<Longrightarrow>
   gen_run [Loop (Shared a)] s = (ancestors_of_parents ps, s[a := []])"
proof (induction ps arbitrary: s)
  case Nil
  then have "gen_next [Loop (Shared a)] s = (Stop, [], s)" by simp
  then have "gen_run [Loop (Shared a)] s = (([], None), s)"
    by (subst gen_run.simps) simp
  moreover from Nil have "s[a := []] = s" by (metis list_update_id list.simps(8))
  ultimately show ?case by simp
next
  case (Cons p ps)
  let ?s1 = "s[a := map as_origin ps]"
  from Cons.prems have "gen_next [Loop (Shared a)] s =
    gen_next ([Start (as_origin p)] @ [Loop (Shared a)]) ?s1"
    by simp
  then have "gen_run [Loop (Shared a)] s = gen_run ([Start (as_origin p)] @ [Loop (Shared a)]) ?s1"
    by (rule gen_run_cong)
  also have "\<dots> = (case frames_run [Start (as_origin p)] of
        (xs, Some x) \<Rightarrow> ((xs, Some x), ?s1)
      | (xs, None) \<Rightarrow>
          (case gen_run [Loop (Shared a)] ?s1 of ((ys, r), s3) \<Rightarrow> ((xs @ ys, r), s3)))"
    by (rule gen_run_append) (simp add: origin_of_as_origin)
  also have "gen_run [Loop (Shared a)] ?s1 = (ancestors_of_parents ps, ?s1[a := []])"
    using Cons.prems by (intro Cons.IH) simp_all
  finally show ?case
    using Cons.prems(3)
    by (cases "get_input_ancestors p"; cases "ancestors_of_parents ps")
       (auto simp: origin_of_as_origin seq_run_Nil2)
qed

lemma gen_run_iterator:
  assumes "a < length s" "s ! a = map as_origin ps"
    "\<forall>p \<in> set ps. snd (get_input_ancestors p) = None"
  shows "gen_run [Start (Origin il (Iterator a) (Some opn))] s =
           (ancestors_of_parents ps, s[a := []])"
    and "gen_run [Start (Origin il (Iterator a) (Some opn))] (s[a := []]) =
           (([], None), s[a := []])"
proof -
  have n: "\<And>s. gen_next [Start (Origin il (Iterator a) (Some opn))] s =
             gen_next [Loop (Shared a)] s"
    by (simp add: origin_is_leaf_def)
  show "gen_run [Start (Origin il (Iterator a) (Some opn))] s =
           (ancestors_of_parents ps, s[a := []])"
    using gen_run_cong [OF n] gen_run_shared [OF assms] by simp
  show "gen_run [Start (Origin il (Iterator a) (Some opn))] (s[a := []]) =
           (([], None), s[a := []])"
    using gen_run_cong [OF n] gen_run_shared [of a "s[a := []]" "[]"] assms(1) by simp
qed

lemma two_calls_sequences:
  "two_calls (as_origin t) (h, s) = Some (get_input_ancestors t, get_input_ancestors t)"
  by (simp add: two_calls_def call_get_input_ancestors_def list_at_def gen_run_sequences
      nth_append)

lemma two_calls_iterator:
  assumes "a < length s" "s ! a = map as_origin ps"
    "\<forall>p \<in> set ps. snd (get_input_ancestors p) = None"
  shows "two_calls (Origin il (Iterator a) (Some opn)) (h, s) =
           Some (ancestors_of_parents ps, ([], None))"
  by (simp add: two_calls_def call_get_input_ancestors_def list_at_def nth_append
      gen_run_iterator [OF assms])

lemma advance_pure:
  "i < length h \<Longrightarrow> list_all pure_frame (h ! i) \<Longrightarrow>
   snd (advance k i (h, s)) = s \<and> length (fst (advance k i (h, s))) = length h \<and>
   (j \<noteq> i \<longrightarrow> fst (advance k i (h, s)) ! j = h ! j)"
proof (induction k arbitrary: h)
  case 0
  then show ?case by simp
next
  case (Suc k)
  obtain ev g1 s1 where n: "gen_next (h ! i) s = (ev, g1, s1)" by (cases "gen_next (h ! i) s")
  note p = gen_next_pure [OF Suc.prems(2) n]
  from Suc.prems n p have "advance (Suc k) i (h, s) = advance k i (h[i := g1], s)"
    by (simp add: next_at_def)
  with Suc.IH [of "h[i := g1]"] Suc.prems p show ?case by simp
qed

lemma second_after_sequences:
  "second_after k (as_origin t) (h, s) = Some (get_input_ancestors t)"
  using advance_pure [of "length h" "h @ [[Start (as_origin t)], [Start (as_origin t)]]" k s
      "Suc (length h)"]
  by (simp add: second_after_def call_get_input_ancestors_def list_at_def gen_run_sequences
      nth_append origin_of_as_origin)

text \<open>
  Claim C3, amended. On a well-formed node whose parents are sequences at every branch,
  \<open>get_input_ancestors\<close> yields, for a leaf, the one location of the leaf, and for a
  branch the runs of its parents one after the other, in the order of the parents and
  with nothing removed. The generator of a call yields exactly this run and uses no
  shared iterator; two successive calls yield two equal runs, and the second generator
  yields the whole run after any number of \<open>next\<close> on the first. When the parents of a
  branch are a one-shot iterator over the same nodes, all calls draw from it: of two
  successive calls the first yields the run and the second yields nothing.
\<close>

theorem get_input_ancestors_valid:
  assumes "valid t"
  shows "(is_leaf t \<longrightarrow>
            (\<exists>loc. input_location t = Some loc \<and> get_input_ancestors t = ([loc], None))) \<and>
         (\<not> is_leaf t \<longrightarrow>
            parents t \<noteq> [] \<and>
            (\<forall>p \<in> set (parents t). valid p \<and> snd (get_input_ancestors p) = None) \<and>
            get_input_ancestors t =
              (concat (map (\<lambda>p. fst (get_input_ancestors p)) (parents t)), None)) \<and>
         gen_run [Start (as_origin t)] s = (get_input_ancestors t, s) \<and>
         two_calls (as_origin t) (h, s) =
           Some (get_input_ancestors t, get_input_ancestors t) \<and>
         second_after k (as_origin t) (h, s) = Some (get_input_ancestors t) \<and>
         (\<not> is_leaf t \<and> a < length s \<and> s ! a = map as_origin (parents t) \<longrightarrow>
            two_calls (Origin (input_location t) (Iterator a) (operation t)) (h, s) =
              Some (get_input_ancestors t, ([], None)))"
proof -
  have shape: "(is_leaf t \<longrightarrow>
            (\<exists>loc. input_location t = Some loc \<and> get_input_ancestors t = ([loc], None))) \<and>
         (\<not> is_leaf t \<longrightarrow>
            parents t \<noteq> [] \<and>
            (\<forall>p \<in> set (parents t). valid p \<and> snd (get_input_ancestors p) = None) \<and>
            get_input_ancestors t =
              (concat (map (\<lambda>p. fst (get_input_ancestors p)) (parents t)), None))"
  proof (cases t)
    case (TableOrigin il ps opn)
    with assms have v: "post_init (TableOrigin il ps opn) = Inr ()" "\<forall>p \<in> set ps. valid p"
      by simp_all
    show ?thesis
    proof (cases opn)
      case None
      with v TableOrigin show ?thesis
        by (auto simp: post_init_def is_leaf_def split: if_splits)
    next
      case (Some opname)
      with v TableOrigin show ?thesis
        by (auto simp: post_init_def is_leaf_def valid_runs split: if_splits)
    qed
  qed
  have once: "two_calls (Origin (input_location t) (Iterator a) (operation t)) (h, s) =
              Some (get_input_ancestors t, ([], None))"
    if b: "\<not> is_leaf t" and a: "a < length s" "s ! a = map as_origin (parents t)"
  proof -
    from b obtain opn where o: "operation t = Some opn" by (auto simp: is_leaf_def)
    from b shape have e: "\<forall>p \<in> set (parents t). snd (get_input_ancestors p) = None" by blast
    from b o have "get_input_ancestors t = ancestors_of_parents (parents t)"
      by (cases t) (simp add: is_leaf_def)
    with two_calls_iterator [OF a e, of "input_location t" opn h] o show ?thesis by simp
  qed
  from shape once gen_run_sequences [of t s] two_calls_sequences [of t h s]
    second_after_sequences [of k t h s]
  show ?thesis by blast
qed

theorem get_input_ancestors_valid_witness:
  "valid merged \<and> \<not> is_leaf merged \<and> is_leaf leaf_a \<and>
   get_input_ancestors leaf_a = ([block_a], None) \<and>
   get_input_ancestors merged = ([block_a, block_b], None) \<and>
   get_input_ancestors (TableOrigin None [merged, leaf_a] (Some ''join'')) =
     ([block_a, block_b, block_a], None) \<and>
   gen_run [Start (as_origin merged)] parents_once = (([block_a, block_b], None), parents_once) \<and>
   two_calls (as_origin merged) ([], parents_once) =
     Some (([block_a, block_b], None), ([block_a, block_b], None)) \<and>
   second_after 1 (as_origin merged) ([], parents_once) = Some ([block_a, block_b], None) \<and>
   two_calls merged_once ([], parents_once) = Some (([block_a, block_b], None), ([], None))"
proof -
  have v: "valid merged" "valid leaf_a"
    by (simp_all add: merged_def leaf_a_def leaf_b_def post_init_def)
  have v2: "valid (TableOrigin None [merged, leaf_a] (Some ''join''))"
    using v by (simp add: post_init_def)
  have m: "get_input_ancestors merged = ([block_a, block_b], None)"
    by (simp add: merged_def leaf_a_def leaf_b_def is_leaf_def)
  have p: "\<not> is_leaf merged" "0 < length parents_once"
    "parents_once ! 0 = map as_origin (parents merged)"
    "Origin (input_location merged) (Iterator 0) (operation merged) = merged_once"
    by (simp_all add: merged_def is_leaf_def parents_once_def merged_once_def)
  note t = get_input_ancestors_valid [OF v(1), where h = "[]" and k = 1 and a = 0
      and s = parents_once]
  from t have g: "gen_run [Start (as_origin merged)] parents_once =
      (get_input_ancestors merged, parents_once)"
    "two_calls (as_origin merged) ([], parents_once) =
      Some (get_input_ancestors merged, get_input_ancestors merged)"
    "second_after 1 (as_origin merged) ([], parents_once) = Some (get_input_ancestors merged)"
    by blast+
  from t p have o: "two_calls merged_once ([], parents_once) =
      Some (get_input_ancestors merged, ([], None))"
    by simp
  from get_input_ancestors_valid [OF v(2)] get_input_ancestors_valid [OF v2] p(1)
  have l: "is_leaf leaf_a" "get_input_ancestors leaf_a = ([block_a], None)"
    "get_input_ancestors (TableOrigin None [merged, leaf_a] (Some ''join'')) =
       ([block_a, block_b, block_a], None)"
    by (simp_all add: m) (simp_all add: leaf_a_def is_leaf_def)
  from v p(1) g o l show ?thesis
    by (simp add: m)
qed

text \<open>
  Claim C3 as stated fails for a branch whose parents are a one-shot iterator: the check
  \<open>_post_init_\<close> accepts the node, its parents are well formed, the first of two
  successive calls yields both locations and the second yields none. The same parents as
  a tuple give two equal runs.
\<close>

theorem one_shot_parents_counterexample:
  "origin_post_init merged_once = Inr () \<and>
   parents_once ! 0 = [as_origin leaf_a, as_origin leaf_b] \<and>
   valid leaf_a \<and> valid leaf_b \<and>
   two_calls merged_once ([], parents_once) = Some (([block_a, block_b], None), ([], None)) \<and>
   two_calls merged_once ([], parents_once) \<noteq>
     Some (([block_a, block_b], None), ([block_a, block_b], None)) \<and>
   two_calls (as_origin merged) ([], parents_once) =
     Some (([block_a, block_b], None), ([block_a, block_b], None))"
proof -
  have a: "0 < length parents_once" "parents_once ! 0 = map as_origin [leaf_a, leaf_b]"
    "\<forall>p \<in> set [leaf_a, leaf_b]. snd (get_input_ancestors p) = None"
    by (simp_all add: parents_once_def leaf_a_def leaf_b_def is_leaf_def)
  have "ancestors_of_parents [leaf_a, leaf_b] = ([block_a, block_b], None)"
    "get_input_ancestors merged = ([block_a, block_b], None)"
    by (simp_all add: merged_def leaf_a_def leaf_b_def is_leaf_def)
  with two_calls_iterator [OF a, of None "''merge''" "[]"]
    two_calls_sequences [of merged "[]" parents_once]
  show ?thesis
    by (simp add: merged_once_def origin_post_init_def parents_once_def leaf_a_def leaf_b_def
        post_init_def)
qed

subsection \<open>Interactive URI\<close>

lemma as_uri_input_csv:
  "as_uri (Path True [''data'', ''input.csv'']) = Inr ''file:///data/input.csv''"
  by (simp add: as_uri_def path_str_def quote_byte_def uri_safe_def hex_char_def)

text \<open>
  Claim C8 as stated fails where a sheet is given without a row: the fragment is then
  \<open>#'S'\<close>, with no \<open>!A<row>\<close> behind it for any row.
\<close>

theorem sheet_without_row_counterexample:
  "interactive_uri input_csv (Some ''S'') None False =
     Inr (Some (''file:///data/input.csv#'' @ squote ''S'')) \<and>
   \<not> (\<exists>n. interactive_uri input_csv (Some ''S'') None False =
          Inr (Some (''file:///data/input.csv#'' @ squote ''S'' @ ''!A'' @ str_int n)))"
  by (simp add: input_csv_def input_csv_at_def as_uri_input_csv squote_def)

text \<open>
  Claim C8, amended. \<open>NullLocationFile.interactive_uri\<close> is \<open>None\<close> for every argument.
  \<open>FilesystemLocationFile.interactive_uri\<close> raises what \<open>Path.as_uri\<close> raises
  (\<open>ValueError\<close> on a relative path) and otherwise returns the \<open>file://\<close> URI of the path:
  alone when neither sheet nor row is given; followed by \<open>#'<sheet>'!A<row>\<close> when a row is
  given, the sheet being \<open>Sheet1\<close> when none is given; followed by \<open>#'<sheet>'\<close> alone when
  a sheet is given without a row.
\<close>

theorem interactive_uri_cases:
  "interactive_uri (NullLocationFile sp ident) sh r ro = Inr None \<and>
   as_uri p = (if anchored p then Inr (''file://'' @ concat (map quote_byte (path_str p)))
               else Inl ValueError) \<and>
   interactive_uri (FilesystemLocationFile p sp rf sc) sh r ro =
     (case as_uri p of
        Inl x \<Rightarrow> Inl x
      | Inr u \<Rightarrow>
          Inr (Some (case (sh, r) of
                       (None, None) \<Rightarrow> u
                     | (None, Some n) \<Rightarrow> u @ ''#'' @ squote ''Sheet1'' @ ''!A'' @ str_int n
                     | (Some s, Some n) \<Rightarrow> u @ ''#'' @ squote s @ ''!A'' @ str_int n
                     | (Some s, None) \<Rightarrow> u @ ''#'' @ squote s)))"
  by (simp add: as_uri_def split: option.splits sum.splits)

subsection \<open>Text rendering\<close>









subsection \<open>HTML rendering\<close>

lemma uri_hostile: "block_interactive_uri hostile_block False = Inr (Some hostile_uri)"
  by (simp add: block_interactive_uri_def hostile_block_def hostile_uri_def input_csv_def
      input_csv_at_def as_uri_input_csv str_int_def str_nat.simps digit_char_def)

text \<open>
  Claim C7, evaluated on the code. For a leaf whose sheet name is \<open>x"><b>\<close> the rendering
  holds the interactive URI in the \<open>href\<close> attribute as \<open>interactive_uri\<close> returned it,
  with the double quote and the angle brackets of the sheet name; \<open>html.escape\<close> would
  have removed them, as it does in the label behind it.
\<close>

theorem href_not_escaped:
  "table_origin_as_html (TableOrigin (Some hostile_block) [] None) =
     Inr (''<a href='' @ [dquote] @ hostile_uri @ [dquote] @ '' class='' @ [dquote] @
          ''input-table-origin'' @ [dquote] @ ''>'' @
          html_escape (squote hostile_sheet @ ''!A1 of '' @ squote ''/data/input.csv'') @
          ''</a>'') \<and>
   dquote \<in> set hostile_uri \<and> CHR ''<'' \<in> set hostile_uri \<and>
   html_escape hostile_uri \<noteq> hostile_uri \<and>
   dquote \<notin> set (html_escape hostile_uri) \<and> CHR ''<'' \<notin> set (html_escape hostile_uri)"
  apply (simp add: table_origin_as_html_def uri_hostile str_opt_def)
  apply (simp add: block_interactive_identifier_def hostile_block_def input_csv_def
      input_csv_at_def fs_interactive_identifier_def path_str_def str_opt_int_def str_int_def
      str_nat.simps digit_char_def)
  apply (simp add: hostile_uri_def hostile_sheet_def squote_def html_escape_def escape_char_def
      dquote_def str_opt_def)
  done

subsection \<open>Load identifiers\<close>



lemma str_nat_digit: "n < 10 \<Longrightarrow> str_nat n = [digit_char n]"
  by (simp add: str_nat.simps)

lemma str_nat_step: "10 \<le> n \<Longrightarrow> str_nat n = str_nat (n div 10) @ [digit_char (n mod 10)]"
  by (subst str_nat.simps) simp

lemma zpad2: "n < 100 \<Longrightarrow> zpad 2 n = [digit_char (n div 10), digit_char (n mod 10)]"
proof (cases "n < 10")
  case True
  then show ?thesis by (simp add: zpad_def str_nat_digit digit_char_def)
next
  case False
  assume "n < 100"
  with False have "n div 10 < 10" "10 \<le> n" by simp_all
  then show ?thesis by (simp add: zpad_def str_nat_step str_nat_digit)
qed

lemma str_nat_2: "10 \<le> n \<Longrightarrow> n < 100 \<Longrightarrow> str_nat n = [digit_char (n div 10), digit_char (n mod 10)]"
  by (simp add: str_nat_step str_nat_digit)

lemma str_nat_3: "100 \<le> n \<Longrightarrow> n < 1000 \<Longrightarrow>
  str_nat n = [digit_char (n div 100), digit_char (n div 10 mod 10), digit_char (n mod 10)]"
proof -
  assume a: "100 \<le> n" "n < 1000"
  then have "10 \<le> n div 10" "n div 10 < 100" "10 \<le> n" by simp_all
  then show ?thesis by (simp add: str_nat_step [of n] str_nat_2 div_mult2_eq [symmetric])
qed

lemma str_nat_4: "1000 \<le> n \<Longrightarrow> n < 10000 \<Longrightarrow>
  str_nat n = [digit_char (n div 1000), digit_char (n div 100 mod 10),
               digit_char (n div 10 mod 10), digit_char (n mod 10)]"
proof -
  assume a: "1000 \<le> n" "n < 10000"
  then have "100 \<le> n div 10" "n div 10 < 1000" "10 \<le> n" by simp_all
  then show ?thesis by (simp add: str_nat_step [of n] str_nat_3 div_mult2_eq [symmetric])
qed

lemma zeros: "replicate 3 CHR ''0'' = ''000''" "replicate 2 CHR ''0'' = ''00''"
  by (simp_all add: numeral_3_eq_3 numeral_2_eq_2)

lemma zpad4: "n < 10000 \<Longrightarrow>
  zpad 4 n = [digit_char (n div 1000), digit_char (n div 100 mod 10),
              digit_char (n div 10 mod 10), digit_char (n mod 10)]"
proof -
  assume "n < 10000"
  then consider "n < 10" | "10 \<le> n" "n < 100" | "100 \<le> n" "n < 1000" | "1000 \<le> n" "n < 10000"
    by linarith
  then show ?thesis
  proof cases
    case 1
    then show ?thesis by (simp add: zpad_def str_nat_digit digit_char_def zeros)
  next
    case 2
    then show ?thesis by (simp add: zpad_def str_nat_2 digit_char_def zeros)
  next
    case 3
    then show ?thesis by (simp add: zpad_def str_nat_3 digit_char_def)
  next
    case 4
    then show ?thesis by (simp add: zpad_def str_nat_4)
  qed
qed





lemma days_in_month_le: "days_in_month y m \<le> 31"
  by (simp add: days_in_month_def)

lemma isoformat_seconds_digits:
  assumes "valid_datetime d"
  shows "isoformat_seconds d =
    [digit_char (year d div 1000), digit_char (year d div 100 mod 10),
     digit_char (year d div 10 mod 10), digit_char (year d mod 10), CHR ''-'',
     digit_char (month d div 10), digit_char (month d mod 10), CHR ''-'',
     digit_char (day d div 10), digit_char (day d mod 10), CHR ''T'',
     digit_char (hour d div 10), digit_char (hour d mod 10), CHR '':'',
     digit_char (minute d div 10), digit_char (minute d mod 10), CHR '':'',
     digit_char (second d div 10), digit_char (second d mod 10)]"
proof -
  have "day d \<le> 31"
    using assms days_in_month_le [of "year d" "month d"] by (simp add: valid_datetime_def)
  with assms have "year d < 10000" "month d < 100" "day d < 100" "hour d < 100"
    "minute d < 100" "second d < 100"
    by (simp_all add: valid_datetime_def)
  then show ?thesis
    by (simp add: isoformat_seconds_def zpad2 zpad4)
qed


lemma fromtimestamp_valid: "fromtimestamp e st = Inr m \<Longrightarrow> valid_datetime m"
  by (auto simp: fromtimestamp_def datetime_new_def Let_def split: option.splits if_splits)

lemma get_mtime_valid: "fst (get_mtime e f) = Inr m \<Longrightarrow> valid_datetime m"
  by (cases "get_stat_result e True f")
     (auto simp: get_mtime_def fromtimestamp_valid split: sum.splits)

lemma load_identifier_fs:
  "fst (get_mtime e (FilesystemLocationFile p sp rf sc)) = Inr m \<Longrightarrow>
   fst (load_identifier e (FilesystemLocationFile p sp rf sc)) =
     Inr (path_str (absolute (cwd e) p) @ ''@'' @ isoformat_seconds m)"
  by (cases "get_mtime e (FilesystemLocationFile p sp rf sc)") (auto split: sum.splits)

text \<open>
  Claim C2, amended. For a \<open>FilesystemLocationFile\<close> whose modification time reads as
  \<open>M\<close>, \<open>load_identifier\<close> is the absolute path, \<open>@\<close> and \<open>M\<close> as
  \<open>YYYY-MM-DDTHH:MM:SS\<close>; the \<open>load_identifier\<close> of a block over it is that text followed
  by \<open>#'<sheet>'!A<row>\<close>, where the sheet is the declared name when it is present and not
  empty, and \<open>Sheet1\<close> when it is absent or empty.
\<close>

theorem load_identifier_format:
  assumes "fst (get_mtime e (FilesystemLocationFile p sp rf sc)) = Inr m"
  shows "fst (load_identifier e (FilesystemLocationFile p sp rf sc)) =
           Inr (path_str (absolute (cwd e) p) @ ''@'' @ isoformat_seconds m) \<and>
         fst (block_load_identifier e
                (LocationBlock (LocationSheet (FilesystemLocationFile p sp rf sc) sn md) r)) =
           Inr (path_str (absolute (cwd e) p) @ ''@'' @ isoformat_seconds m @ ''#'' @
                squote (case sn of None \<Rightarrow> ''Sheet1''
                        | Some s \<Rightarrow> if s = [] then ''Sheet1'' else s) @
                ''!A'' @ str_int r) \<and>
         isoformat_seconds m =
           [digit_char (year m div 1000), digit_char (year m div 100 mod 10),
            digit_char (year m div 10 mod 10), digit_char (year m mod 10), CHR ''-'',
            digit_char (month m div 10), digit_char (month m mod 10), CHR ''-'',
            digit_char (day m div 10), digit_char (day m mod 10), CHR ''T'',
            digit_char (hour m div 10), digit_char (hour m mod 10), CHR '':'',
            digit_char (minute m div 10), digit_char (minute m mod 10), CHR '':'',
            digit_char (second m div 10), digit_char (second m mod 10)]"
proof -
  have 1: "fst (load_identifier e (FilesystemLocationFile p sp rf sc)) =
           Inr (path_str (absolute (cwd e) p) @ ''@'' @ isoformat_seconds m)"
    using assms by (rule load_identifier_fs)
  have 2: "fst (block_load_identifier e
                (LocationBlock (LocationSheet (FilesystemLocationFile p sp rf sc) sn md) r)) =
           Inr (path_str (absolute (cwd e) p) @ ''@'' @ isoformat_seconds m @ ''#'' @
                squote (case sn of None \<Rightarrow> ''Sheet1''
                        | Some s \<Rightarrow> if s = [] then ''Sheet1'' else s) @
                ''!A'' @ str_int r)"
    using 1
    by (cases "load_identifier e (FilesystemLocationFile p sp rf sc)")
       (auto simp: sheet_name_or_default_def split: sum.splits)
  have 3: "valid_datetime m" using assms by (rule get_mtime_valid)
  from 1 2 isoformat_seconds_digits [OF 3] show ?thesis by blast
qed





lemma civil_2023: "civil_from_days 19358 = (2023, 1, 1)"
  unfolding civil_from_days_def Let_def by simp

lemma gmtime_2023: "gmtime 1672531200 = Some (2023, 1, 1, 0, 0, 0)"
proof -
  have "(1672531200::int) div 86400 = 19358" "(1672531200::int) mod 86400 = 0" by simp_all
  then show ?thesis unfolding gmtime_def by (simp add: civil_2023)
qed


lemma datetime_new_2023:
  "s \<le> 59 \<Longrightarrow> u \<le> 999999 \<Longrightarrow> datetime_new 2023 1 1 0 0 s u = Inr (new_year s u)"
  by (simp add: datetime_new_def new_year_def valid_datetime_def days_in_month_def Let_def)

lemma mtime_input_csv: "u \<le> 999999 \<Longrightarrow>
  fst (get_mtime utc_env (input_csv_at 1672531200 u)) = Inr (new_year 0 u)"
  by (simp add: get_mtime_def input_csv_at_def utc_env_def fromtimestamp_def gmtime_2023
      datetime_new_2023 del: One_nat_def)


lemma iso_2023: "isoformat_seconds (new_year 0 u) = ''2023-01-01T00:00:00''"
  by (simp add: isoformat_seconds_def new_year_def zpad_def str_nat.simps digit_char_def
      zeros)

lemma path_input_csv: "path_str (absolute (cwd utc_env) (Path True [''data'', ''input.csv''])) = ''/data/input.csv''"
  by (simp add: absolute_def path_str_def)

lemma str_int_5: "str_int 5 = ''5''"
  by (simp add: str_int_def str_nat.simps digit_char_def)

theorem load_identifier_format_witness:
  "fst (get_mtime utc_env input_csv) =
     Inr (new_year 0 0) \<and>
   fst (load_identifier utc_env input_csv) = Inr ''/data/input.csv@2023-01-01T00:00:00'' \<and>
   fst (block_load_identifier utc_env (LocationBlock (LocationSheet input_csv None []) 5)) =
     Inr (''/data/input.csv@2023-01-01T00:00:00#'' @ squote ''Sheet1'' @ ''!A5'') \<and>
   fst (block_load_identifier utc_env
          (LocationBlock (LocationSheet input_csv (Some ''data'') []) 5)) =
     Inr (''/data/input.csv@2023-01-01T00:00:00#'' @ squote ''data'' @ ''!A5'')"
proof -
  have m: "fst (get_mtime utc_env
              (FilesystemLocationFile (Path True [''data'', ''input.csv''])
                 (LoadItem ''/data/input.csv'' None) None
                 (Some \<lparr>st_mtime_sec = 1672531200, st_mtime_usec = 0\<rparr>))) =
     Inr (new_year 0 0)"
    using mtime_input_csv [of 0] by (simp add: input_csv_at_def)
  show ?thesis
    using load_identifier_format [OF m, where sn = None and md = "[]" and r = 5]
      load_identifier_format [OF m, where sn = "Some ''data''" and md = "[]" and r = 5] m
    by (simp add: input_csv_def input_csv_at_def path_input_csv iso_2023 str_int_5
        squote_def)
qed

text \<open>
  Claim C2 as stated fails for a declared sheet name that is the empty text: the
  identifier names \<open>Sheet1\<close>, not the declared name.
\<close>

theorem empty_sheet_name_counterexample:
  "sheet_name (LocationSheet input_csv (Some []) []) = Some [] \<and>
   fst (block_load_identifier utc_env (LocationBlock (LocationSheet input_csv (Some []) []) 5)) =
     Inr (''/data/input.csv@2023-01-01T00:00:00#'' @ squote ''Sheet1'' @ ''!A5'') \<and>
   fst (block_load_identifier utc_env (LocationBlock (LocationSheet input_csv (Some []) []) 5)) \<noteq>
     Inr (''/data/input.csv@2023-01-01T00:00:00#'' @ squote [] @ ''!A5'')"
proof -
  have "fst (load_identifier utc_env input_csv) = Inr ''/data/input.csv@2023-01-01T00:00:00''"
    using load_identifier_fs [OF mtime_input_csv [of 0, unfolded input_csv_at_def]]
    by (simp add: input_csv_def input_csv_at_def path_input_csv iso_2023)
  then show ?thesis
    by (cases "load_identifier utc_env input_csv")
       (simp add: sheet_name_or_default_def str_int_5 squote_def)
qed











subsection \<open>Issue trackers\<close>

lemma null_call_raises: "\<exists>iss. null_call t c = Inl (InputError iss)"
  by (cases c) (simp_all add: null_add_issue_def add_error_def add_warning_def)

lemma attempt_all_null: "attempt_all t cs = (t', rs) \<Longrightarrow> t' = t \<and> length rs = length cs"
proof (induction cs arbitrary: t' rs)
  case Nil
  then show ?case by simp
next
  case (Cons c cs)
  obtain iss where r: "null_call t c = Inl (InputError iss)"
    using null_call_raises by blast
  obtain t1 rs1 where a: "attempt_all t cs = (t1, rs1)" by (cases "attempt_all t cs")
  from Cons.prems r a have "rs = InputError iss # rs1" and "t' = t1" by simp_all
  with Cons.IH [OF a] show ?case by simp
qed

text \<open>
  Claim C5. On the fail-fast tracker \<open>NullInputIssueTracker\<close> every call of
  \<open>add_issue\<close>, and so of \<open>add_error\<close> and \<open>add_warning\<close>, raises \<open>InputError\<close> with the
  issue; whatever calls were attempted (each of a list of calls raised), \<open>issues\<close> is
  empty and \<open>is_ok\<close> is true, by the override and by the computation of the base class.
\<close>

theorem null_tracker_fail_fast:
  "null_add_issue t iss = Inl (InputError iss) \<and>
   add_error null_add_issue t i li lf org =
     Inl (InputError \<lparr>issue = i, load_item = li, location_file = lf, origin = org,
                      severity = logging_ERROR\<rparr>) \<and>
   add_warning null_add_issue t i li lf org =
     Inl (InputError \<lparr>issue = i, load_item = li, location_file = lf, origin = org,
                      severity = logging_WARNING\<rparr>) \<and>
   length (snd (attempt_all t cs)) = length cs \<and>
   null_issues (fst (attempt_all t cs)) = [] \<and>
   null_is_ok (fst (attempt_all t cs)) \<and>
   is_ok null_issues (fst (attempt_all t cs))"
proof -
  obtain t' rs where a: "attempt_all t cs = (t', rs)" by (cases "attempt_all t cs")
  then have "t' = t \<and> length rs = length cs" by (rule attempt_all_null)
  with a show ?thesis
    by (simp add: null_add_issue_def add_error_def add_warning_def null_issues_def
        null_is_ok_def is_ok_def)
qed

text \<open>
  Claim C9. With the computation of the base class, \<open>is_ok\<close> is false exactly when some
  recorded issue has a severity of at least \<open>ERROR\<close>; \<open>add_error\<close> and \<open>add_warning\<close> pass
  to \<open>add_issue\<close> an issue of the given fields whose severity is \<open>ERROR\<close>, respectively
  \<open>WARNING\<close>, which is the lower level.
\<close>

theorem base_tracker_is_ok:
  "(\<not> is_ok issues t \<longleftrightarrow> (\<exists>m \<in> set (issues t). severity m \<ge> logging_ERROR)) \<and>
   add_error add_issue t i li lf org =
     add_issue t \<lparr>issue = i, load_item = li, location_file = lf, origin = org,
                  severity = logging_ERROR\<rparr> \<and>
   add_warning add_issue t i li lf org =
     add_issue t \<lparr>issue = i, load_item = li, location_file = lf, origin = org,
                  severity = logging_WARNING\<rparr> \<and>
   logging_WARNING < logging_ERROR"
  by (simp add: is_ok_def add_error_def add_warning_def list_ex_iff logging_ERROR_def
      logging_WARNING_def)

end
